theory Spec2Isabelle
  imports Complex_Main
begin

section \<open>Data model of the mesh container (glint2/Grid.cpp)\<close>

text \<open>
  A \<open>Vertex\<close> carries its index and its two coordinates; a \<open>Cell\<close> carries its
  index, the native address tag \<open>(i, j, k)\<close>, its stored area and the ordered sequence
  of the vertices of its polygon. The coordinate type \<open>'a\<close> stands for the C++
  \<open>double\<close>; the code below only moves such values around or combines them with
  \<open>+\<close>, \<open>-\<close>, \<open>*\<close> and \<open>/\<close>, so the definitions are written once for every
  type that has these operations and are read at type \<open>real\<close> where a concrete number
  is computed.

  The C++ cell holds pointers to vertices; a cell is modelled as holding the vertices
  themselves. The one operation that writes to a vertex after it has been created is
  \<open>sort_renumber_vertices\<close>, and its model rewrites the vertices held by the cells
  as it rewrites those of the grid. The C++ \<open>int\<close> index is modelled as an unbounded
  \<open>int\<close>; collection sizes are assumed to stay below \<open>2^31\<close>.
\<close>

record 'a Vertex =
  v_index :: int
  v_x :: 'a
  v_y :: 'a

record 'a Cell =
  c_index :: int
  c_i :: int
  c_j :: int
  c_k :: int
  c_area :: 'a
  c_vertices :: "'a Vertex list"

datatype GridType = Type_GENERIC | Type_XY | Type_LONLAT | Type_EXCHANGE

datatype Coordinates = Coord_XY | Coord_LONLAT

datatype Parameterization = L0 | L1

datatype error =
    DuplicateIndex
  | DanglingReference
  | SchemaError
  | OutOfRange
  | AllocError
  | NullPointer
  | EmptyCell

text \<open>
  \<open>giss::Dict<int, T>\<close>: a dictionary from integer keys to owned values. It is
  modelled as an association list in insertion order whose keys are kept distinct by
  \<open>dict_insert\<close>, which (as \<open>std::unordered_map::insert\<close>) leaves the dictionary
  alone and reports \<open>False\<close> when the key is already there.
\<close>

type_synonym 'v Dict = "(int \<times> 'v) list"

definition dict_insert :: "int \<Rightarrow> 'v \<Rightarrow> 'v Dict \<Rightarrow> 'v Dict \<times> bool" where
  "dict_insert key val d =
     (case map_of d key of
        Some _ \<Rightarrow> (d, False)
      | None \<Rightarrow> (d @ [(key, val)], True))"


record 'a Grid =
  g_type :: GridType
  g_name :: string
  g_coordinates :: Coordinates
  g_parameterization :: Parameterization
  g_sproj :: string
  g_ncells_full :: "int option"
  g_nvertices_full :: "int option"
  g_max_realized_cell_index :: int
  g_max_realized_vertex_index :: int
  g_vertices :: "'a Vertex Dict"
  g_cells :: "'a Cell Dict"

text \<open>
  The constructor \<open>Grid::Grid(Type)\<close>. It initialises the type, the coordinates, the
  parameterization and the two maximum-index trackers (to 0); the two full counts are
  not set by it.
\<close>

definition Grid_new :: "GridType \<Rightarrow> 'a Grid" where
  "Grid_new t =
     \<lparr> g_type = t, g_name = [], g_coordinates = Coord_LONLAT,
       g_parameterization = L0, g_sproj = [],
       g_ncells_full = None, g_nvertices_full = None,
       g_max_realized_cell_index = 0, g_max_realized_vertex_index = 0,
       g_vertices = [], g_cells = [] \<rparr>"

text \<open>
  Modelled from the spec: \<open>ncells_realized()\<close> and \<open>nvertices_realized()\<close> are
  declared in glint2/Grid.hpp, which is not among the sources. They are the numbers of
  cells and vertices currently in the grid.
\<close>

definition ncells_realized :: "'a Grid \<Rightarrow> int" where
  "ncells_realized g = int (length (g_cells g))"

definition nvertices_realized :: "'a Grid \<Rightarrow> int" where
  "nvertices_realized g = int (length (g_vertices g))"

text \<open>
  Modelled from the spec: the accessors \<open>ncells_full()\<close> and \<open>nvertices_full()\<close>
  are declared in glint2/Grid.hpp as well. The specification says that the full counts
  record the cardinality of the unfiltered domain, that filtering freezes them to the
  current realized counts if they are not already set, and that they are frozen once
  set. So an unset count reads as the realized count and a set count reads as itself.
\<close>

definition ncells_full :: "'a Grid \<Rightarrow> int" where
  "ncells_full g = (case g_ncells_full g of Some n \<Rightarrow> n | None \<Rightarrow> ncells_realized g)"

definition nvertices_full :: "'a Grid \<Rightarrow> int" where
  "nvertices_full g =
     (case g_nvertices_full g of Some n \<Rightarrow> n | None \<Rightarrow> nvertices_realized g)"

text \<open>
  Modelled from the spec: \<open>get_cell\<close> and \<open>get_vertex\<close> are declared in
  glint2/Grid.hpp as well. The collections are addressable by index for lookup; a
  missing index gives no entity.
\<close>

definition get_cell :: "int \<Rightarrow> 'a Grid \<Rightarrow> 'a Cell option" where
  "get_cell ix g = map_of (g_cells g) ix"

definition get_vertex :: "int \<Rightarrow> 'a Grid \<Rightarrow> 'a Vertex option" where
  "get_vertex ix g = map_of (g_vertices g) ix"

section \<open>Geometry: signed area and centroid\<close>

text \<open>
  \<open>area_of_polygon\<close>: the loop runs over consecutive pairs \<open>(it0, it1)\<close> and leaves
  \<open>it0\<close> at the last vertex; the closing edge from the last vertex back to the first
  is added after the loop, and the sum is halved. Dereferencing \<open>begin()\<close> of a cell
  without vertices is undefined in C++; the model returns \<open>EmptyCell\<close>.
\<close>

fun area_loop ::
  "'a::{plus,minus,times} Vertex \<Rightarrow> 'a Vertex list \<Rightarrow> 'a \<Rightarrow> 'a Vertex \<times> 'a" where
  "area_loop it0 [] ret = (it0, ret)"
| "area_loop it0 (it1 # rest) ret =
     area_loop it1 rest (ret + ((v_x it0 * v_y it1) - (v_x it1 * v_y it0)))"

definition area_of_polygon ::
  "'a::{zero,plus,minus,times,inverse,numeral} Cell \<Rightarrow> error + 'a" where
  "area_of_polygon cell =
     (case c_vertices cell of
        [] \<Rightarrow> Inl EmptyCell
      | first # rest \<Rightarrow>
          (case area_loop first rest 0 of
             (it0, ret) \<Rightarrow>
               Inr ((ret + ((v_x it0 * v_y first) - (v_x first * v_y it0))) * (1 / 2))))"

text \<open>
  \<open>area_of_proj_polygon\<close>: the first vertex is transformed once and remembered as
  \<open>(x00, y00)\<close>; each further vertex is transformed when the loop reaches it. The
  projection \<open>proj.transform(x, y, x', y')\<close> is a function from a point to a point.
  Next to the area the model returns \<open>calls\<close>, the list of the points handed to the
  projection, in the order of the calls.
\<close>

fun proj_loop ::
  "('a \<Rightarrow> 'a \<Rightarrow> 'a \<times> 'a) \<Rightarrow> 'a::{plus,minus,times} Vertex list \<Rightarrow>
     'a \<Rightarrow> 'a \<Rightarrow> 'a \<Rightarrow> ('a \<times> 'a) list \<Rightarrow> 'a \<times> 'a \<times> 'a \<times> ('a \<times> 'a) list" where
  "proj_loop proj [] x0 y0 ret calls = (x0, y0, ret, calls)"
| "proj_loop proj (it0 # rest) x0 y0 ret calls =
     (case proj (v_x it0) (v_y it0) of
        (x1, y1) \<Rightarrow>
          proj_loop proj rest x1 y1 (ret + ((x0 * y1) - (x1 * y0)))
            (calls @ [(v_x it0, v_y it0)]))"

definition area_of_proj_polygon_calls ::
  "'a::{zero,plus,minus,times,inverse,numeral} Cell \<Rightarrow> ('a \<Rightarrow> 'a \<Rightarrow> 'a \<times> 'a) \<Rightarrow>
     error + ('a \<times> ('a \<times> 'a) list)" where
  "area_of_proj_polygon_calls cell proj =
     (case c_vertices cell of
        [] \<Rightarrow> Inl EmptyCell
      | first # rest \<Rightarrow>
          (case proj (v_x first) (v_y first) of
             (x00, y00) \<Rightarrow>
               (case proj_loop proj rest x00 y00 0 [(v_x first, v_y first)] of
                  (x0, y0, ret, calls) \<Rightarrow>
                    Inr ((ret + ((x0 * y00) - (x00 * y0))) * (1 / 2), calls))))"

definition area_of_proj_polygon ::
  "'a::{zero,plus,minus,times,inverse,numeral} Cell \<Rightarrow> ('a \<Rightarrow> 'a \<Rightarrow> 'a \<times> 'a) \<Rightarrow>
     error + 'a" where
  "area_of_proj_polygon cell proj = map_sum id fst (area_of_proj_polygon_calls cell proj)"

text \<open>
  The polygon obtained by transforming every vertex of a cell: the second definition
  of the projected area, following the words of the specification (transform all, then
  apply the formula).
\<close>

definition transform_vertex ::
  "('a \<Rightarrow> 'a \<Rightarrow> 'a \<times> 'a) \<Rightarrow> 'a Vertex \<Rightarrow> 'a Vertex" where
  "transform_vertex proj v =
     (case proj (v_x v) (v_y v) of (x1, y1) \<Rightarrow> v\<lparr>v_x := x1, v_y := y1\<rparr>)"

definition transform_cell ::
  "('a \<Rightarrow> 'a \<Rightarrow> 'a \<times> 'a) \<Rightarrow> 'a Cell \<Rightarrow> 'a Cell" where
  "transform_cell proj cell =
     cell\<lparr>c_vertices := map (transform_vertex proj) (c_vertices cell)\<rparr>"

text \<open>
  \<open>Grid::centroid\<close>. For L0 the cell is looked up, its area computed, the weighted
  sums \<open>Cx\<close> and \<open>Cy\<close> accumulated over consecutive pairs and the closing pair, and
  both scaled by \<open>1 / (6 A)\<close>. For L1 the vertex's own coordinates are returned. A
  missing cell or vertex is a null pointer in C++; the model returns \<open>NullPointer\<close>.
\<close>

fun centroid_loop ::
  "'a::{plus,minus,times} Vertex \<Rightarrow> 'a Vertex list \<Rightarrow> 'a \<Rightarrow> 'a \<Rightarrow> 'a Vertex \<times> 'a \<times> 'a" where
  "centroid_loop v0 [] Cx Cy = (v0, Cx, Cy)"
| "centroid_loop v0 (v1 # rest) Cx Cy =
     (let cross = (v_x v0 * v_y v1 - v_x v1 * v_y v0)
      in centroid_loop v1 rest (Cx + (v_x v0 + v_x v1) * cross) (Cy + (v_y v0 + v_y v1) * cross))"

definition centroid ::
  "int \<Rightarrow> 'a::{zero,plus,minus,times,inverse,numeral} Grid \<Rightarrow> error + ('a \<times> 'a)" where
  "centroid ix g =
     (case g_parameterization g of
        L0 \<Rightarrow>
          (case get_cell ix g of
             None \<Rightarrow> Inl NullPointer
           | Some cell \<Rightarrow>
               (case area_of_polygon cell of
                  Inl e \<Rightarrow> Inl e
                | Inr A \<Rightarrow>
                    (case c_vertices cell of
                       [] \<Rightarrow> Inl EmptyCell
                     | first # rest \<Rightarrow>
                         (case centroid_loop first rest 0 0 of
                            (v0, Cx, Cy) \<Rightarrow>
                              (let cross = (v_x v0 * v_y first - v_x first * v_y v0);
                                   Cx = Cx + (v_x v0 + v_x first) * cross;
                                   Cy = Cy + (v_y v0 + v_y first) * cross;
                                   fact = 1 / (6 * A)
                               in Inr (Cx * fact, Cy * fact))))))
      | L1 \<Rightarrow>
          (case get_vertex ix g of
             None \<Rightarrow> Inl NullPointer
           | Some vertex \<Rightarrow> Inr (v_x vertex, v_y vertex)))"

section \<open>Insertion\<close>

text \<open>
  \<open>Grid::add_cell\<close> and \<open>Grid::add_vertex\<close>. An index of \<open>-1\<close> is replaced by the
  current size of the collection. The maximum-index tracker is raised before the
  insertion is attempted. When the key is already present the function throws; the
  grid it leaves behind is the second component of the result. On success the result
  is the stored entity.
\<close>

definition add_cell :: "'a Cell \<Rightarrow> 'a Grid \<Rightarrow> (error + 'a Cell) \<times> 'a Grid" where
  "add_cell cell0 g =
     (let cell = (if c_index cell0 = -1
                  then cell0\<lparr>c_index := int (length (g_cells g))\<rparr> else cell0);
          g1 = g\<lparr>g_max_realized_cell_index :=
                   max (g_max_realized_cell_index g) (c_index cell)\<rparr>
      in case dict_insert (c_index cell) cell (g_cells g1) of
           (d, inserted) \<Rightarrow>
             if \<not> inserted then (Inl DuplicateIndex, g1)
             else (Inr cell, g1\<lparr>g_cells := d\<rparr>))"

definition add_vertex :: "'a Vertex \<Rightarrow> 'a Grid \<Rightarrow> (error + 'a Vertex) \<times> 'a Grid" where
  "add_vertex vertex0 g =
     (let vertex = (if v_index vertex0 = -1
                    then vertex0\<lparr>v_index := int (length (g_vertices g))\<rparr> else vertex0);
          g1 = g\<lparr>g_max_realized_vertex_index :=
                   max (g_max_realized_vertex_index g) (v_index vertex)\<rparr>
      in case dict_insert (v_index vertex) vertex (g_vertices g1) of
           (d, inserted) \<Rightarrow>
             if \<not> inserted then (Inl DuplicateIndex, g1)
             else (Inr vertex, g1\<lparr>g_vertices := d\<rparr>))"

text \<open>
  A sequence of insertions, each of which the caller lets fail on its own (the
  exception is caught and the next insertion is made on the grid the failed one left
  behind). The result lists, in order, the indices that successful insertions with the
  unassigned sentinel \<open>-1\<close> were given.
\<close>

fun add_cells_auto :: "'a Cell list \<Rightarrow> 'a Grid \<Rightarrow> int list \<times> 'a Grid" where
  "add_cells_auto [] g = ([], g)"
| "add_cells_auto (cell # rest) g =
     (case add_cell cell g of
        (Inl e, g') \<Rightarrow> add_cells_auto rest g'
      | (Inr stored, g') \<Rightarrow>
          (case add_cells_auto rest g' of
             (ixs, g'') \<Rightarrow>
               (if c_index cell = -1 then c_index stored # ixs else ixs, g'')))"


section \<open>Renumbering\<close>

text \<open>
  \<open>CmpVertexXY\<close> compares by \<open>x\<close> and, where the difference of the \<open>x\<close> is
  neither negative nor positive, by \<open>y\<close>. \<open>Grid::sort_renumber_vertices\<close> sorts
  pointers to the vertices of the grid with it and writes \<open>0, 1, 2, \<dots>\<close> into the
  \<open>index\<close> fields in that order. Neither the keys of the dictionary nor the trackers
  are touched. \<open>std::sort\<close> leaves the order of vertices that compare equal open; the
  model inserts one vertex after the other. A vertex held by a cell is found among the
  vertices of the grid by its value, which identifies it as long as the vertices of the
  grid differ from each other; a vertex that is not in the grid is left alone.
\<close>

definition CmpVertexXY :: "'a::{minus,zero,ord} Vertex \<Rightarrow> 'a Vertex \<Rightarrow> bool" where
  "CmpVertexXY a b =
     (let diff = v_x a - v_x b
      in if diff < 0 then True
         else if 0 < diff then False
         else v_y a - v_y b < 0)"

fun insort_vertex :: "'a::{minus,zero,ord} Vertex \<Rightarrow> 'a Vertex list \<Rightarrow> 'a Vertex list" where
  "insort_vertex vertex [] = [vertex]"
| "insort_vertex vertex (other # rest) =
     (if CmpVertexXY other vertex then other # insort_vertex vertex rest
      else vertex # other # rest)"

definition sort_vertices :: "'a::{minus,zero,ord} Vertex list \<Rightarrow> 'a Vertex list" where
  "sort_vertices vertices = foldr insort_vertex vertices []"

fun position_of :: "'b \<Rightarrow> 'b list \<Rightarrow> nat \<Rightarrow> nat option" where
  "position_of a [] i = None"
| "position_of a (b # rest) i = (if a = b then Some i else position_of a rest (Suc i))"

definition renumber :: "'a Vertex list \<Rightarrow> 'a Vertex \<Rightarrow> 'a Vertex" where
  "renumber vertices vertex =
     (case position_of vertex vertices 0 of
        Some i \<Rightarrow> vertex\<lparr>v_index := int i\<rparr>
      | None \<Rightarrow> vertex)"

definition sort_renumber_vertices :: "'a::{minus,zero,ord} Grid \<Rightarrow> 'a Grid" where
  "sort_renumber_vertices g =
     (let vertices = sort_vertices (map snd (g_vertices g))
      in g\<lparr>g_vertices := map (\<lambda>(key, vertex). (key, renumber vertices vertex)) (g_vertices g),
           g_cells := map (\<lambda>(key, cell).
                        (key, cell\<lparr>c_vertices := map (renumber vertices) (c_vertices cell)\<rparr>))
                        (g_cells g)\<rparr>)"

section \<open>Filtering\<close>

text \<open>
  \<open>Grid::filter_cells\<close>. The full counts are fixed first. The first loop walks the
  cells: a kept cell raises the cell tracker (restarted at \<open>-1\<close>) and puts the indices
  of its vertices into \<open>good_vertices\<close>; a rejected cell is erased. The second loop
  walks the vertices: a vertex whose index is in \<open>good_vertices\<close> raises the vertex
  tracker (restarted at \<open>-1\<close>), any other vertex is erased.
\<close>

fun filter_cells_loop ::
  "(int \<Rightarrow> bool) \<Rightarrow> 'a Cell Dict \<Rightarrow> int \<Rightarrow> int set \<Rightarrow> 'a Cell Dict \<times> int \<times> int set" where
  "filter_cells_loop include_cell [] mx good_vertices = ([], mx, good_vertices)"
| "filter_cells_loop include_cell ((key, cell) # rest) mx good_vertices =
     (if include_cell (c_index cell) then
        (case filter_cells_loop include_cell rest (max mx (c_index cell))
                (fold (\<lambda>vertex. insert (v_index vertex)) (c_vertices cell) good_vertices) of
           (kept, mx', good') \<Rightarrow> ((key, cell) # kept, mx', good'))
      else filter_cells_loop include_cell rest mx good_vertices)"

fun filter_vertices_loop ::
  "int set \<Rightarrow> 'a Vertex Dict \<Rightarrow> int \<Rightarrow> 'a Vertex Dict \<times> int" where
  "filter_vertices_loop good_vertices [] mx = ([], mx)"
| "filter_vertices_loop good_vertices ((key, vertex) # rest) mx =
     (if v_index vertex \<in> good_vertices then
        (case filter_vertices_loop good_vertices rest (max mx (v_index vertex)) of
           (kept, mx') \<Rightarrow> ((key, vertex) # kept, mx'))
      else filter_vertices_loop good_vertices rest mx)"

definition filter_cells :: "(int \<Rightarrow> bool) \<Rightarrow> 'a Grid \<Rightarrow> 'a Grid" where
  "filter_cells include_cell g =
     (let g1 = g\<lparr>g_ncells_full := Some (ncells_full g)\<rparr>;
          g2 = g1\<lparr>g_nvertices_full := Some (nvertices_full g1)\<rparr>
      in case filter_cells_loop include_cell (g_cells g2) (-1) {} of
           (cells, max_cell, good_vertices) \<Rightarrow>
             (case filter_vertices_loop good_vertices (g_vertices g2) (-1) of
                (vertices, max_vertex) \<Rightarrow>
                  g2\<lparr>g_cells := cells, g_max_realized_cell_index := max_cell,
                     g_vertices := vertices, g_max_realized_vertex_index := max_vertex\<rparr>))"

text \<open>
  The grids that a program can build: a freshly constructed grid, and whatever
  \<open>add_vertex\<close>, \<open>add_cell\<close> (successful or not) and \<open>filter_cells\<close> make of one.
\<close>

inductive reachable :: "'a Grid \<Rightarrow> bool" where
  reach_new: "reachable (Grid_new t)"
| reach_add_vertex: "reachable g \<Longrightarrow> reachable (snd (add_vertex vertex g))"
| reach_add_cell: "reachable g \<Longrightarrow> reachable (snd (add_cell cell g))"
| reach_filter: "reachable g \<Longrightarrow> reachable (filter_cells include_cell g)"

text \<open>
  The maximum-index invariant: each tracker is at least the index of every realized
  entity of its collection.
\<close>

definition max_index_inv :: "'a Grid \<Rightarrow> bool" where
  "max_index_inv g \<longleftrightarrow>
     list_all (\<lambda>(key, cell). c_index cell \<le> g_max_realized_cell_index g) (g_cells g) \<and>
     list_all (\<lambda>(key, vertex). v_index vertex \<le> g_max_realized_vertex_index g) (g_vertices g)"

text \<open>
  Well-formedness of the collections, as the data model of the specification has it:
  keys are distinct and each entity is stored under its own index; every vertex that a
  cell refers to is the vertex stored in the grid under that index; no stored entity
  carries the unassigned sentinel.
\<close>

definition dict_wf :: "('v \<Rightarrow> int) \<Rightarrow> 'v Dict \<Rightarrow> bool" where
  "dict_wf ix d \<longleftrightarrow> distinct (map fst d) \<and> list_all (\<lambda>(key, val). key = ix val) d"

definition refs_ok :: "'a Grid \<Rightarrow> bool" where
  "refs_ok g \<longleftrightarrow>
     list_all (\<lambda>(key, cell).
        list_all (\<lambda>vertex. map_of (g_vertices g) (v_index vertex) = Some vertex)
          (c_vertices cell)) (g_cells g)"

definition indices_assigned :: "'a Grid \<Rightarrow> bool" where
  "indices_assigned g \<longleftrightarrow>
     list_all (\<lambda>(key, vertex). key \<noteq> -1) (g_vertices g) \<and>
     list_all (\<lambda>(key, cell). key \<noteq> -1) (g_cells g)"

definition grid_wf :: "'a Grid \<Rightarrow> bool" where
  "grid_wf g \<longleftrightarrow>
     dict_wf v_index (g_vertices g) \<and> dict_wf c_index (g_cells g) \<and>
     refs_ok g \<and> indices_assigned g"

section \<open>Native areas\<close>

text \<open>
  \<open>Grid::get_native_areas\<close>: a vector of \<open>ncells_full()\<close> entries, all \<open>nan\<close>, into
  which each realized cell writes its area at its index through the bounds-checked
  \<open>vector::at\<close>, which throws when the index is outside the vector. \<open>nan\<close> is the
  file's constant \<open>quiet_NaN()\<close>, a parameter here. A negative size cannot be
  allocated.
\<close>

fun native_areas_loop :: "'a Cell list \<Rightarrow> 'a list \<Rightarrow> error + 'a list" where
  "native_areas_loop [] area = Inr area"
| "native_areas_loop (cell # rest) area =
     (if 0 \<le> c_index cell \<and> c_index cell < int (length area)
      then native_areas_loop rest (area[nat (c_index cell) := c_area cell])
      else Inl OutOfRange)"

definition get_native_areas :: "'a \<Rightarrow> 'a Grid \<Rightarrow> error + 'a list" where
  "get_native_areas nan g =
     (if ncells_full g < 0 then Inl AllocError
      else native_areas_loop (map snd (g_cells g)) (replicate (nat (ncells_full g)) nan))"

section \<open>Mesh codec\<close>















section \<open>Sparse operator builder (icebin/eigen_types.cpp)\<close>

text \<open>
  Modelled from the spec: \<open>SparseSetT\<close>, \<open>MakeDenseEigenT\<close> and
  \<open>Weighted_Compressed\<close> belong to the spsparse and ibmisc libraries, which are not
  among the sources. Following the specification, a sparse set assigns dense positions
  lazily, on the first encounter of a native index, in first-seen order, and records
  the native extent it is told; the accumulator adds each triple at the dense positions
  of its native row and column; the matrix has the dense extents of the two sets as its
  shape, and triples that fall on the same entry are summed.
\<close>

record SparseSet =
  sparse_extent :: "int option"
  d2s :: "int list"

definition SparseSet_new :: SparseSet where
  "SparseSet_new = \<lparr> sparse_extent = None, d2s = [] \<rparr>"

fun find_dense :: "int list \<Rightarrow> int \<Rightarrow> nat \<Rightarrow> nat option" where
  "find_dense [] sp pos = None"
| "find_dense (s # rest) sp pos = (if s = sp then Some pos else find_dense rest sp (Suc pos))"

definition to_dense :: "SparseSet \<Rightarrow> int \<Rightarrow> nat option" where
  "to_dense dm sp = find_dense (d2s dm) sp 0"

definition add_dense :: "int \<Rightarrow> SparseSet \<Rightarrow> nat \<times> SparseSet" where
  "add_dense sp dm =
     (case to_dense dm sp of
        Some dn \<Rightarrow> (dn, dm)
      | None \<Rightarrow> (length (d2s dm), dm\<lparr>d2s := d2s dm @ [sp]\<rparr>))"

definition dense_extent :: "SparseSet \<Rightarrow> nat" where
  "dense_extent dm = length (d2s dm)"

definition set_sparse_extent :: "int \<Rightarrow> SparseSet \<Rightarrow> SparseSet" where
  "set_sparse_extent n dm = dm\<lparr>sparse_extent := Some n\<rparr>"

record 'a EigenSparseMatrix =
  m_rows :: nat
  m_cols :: nat
  m_triplets :: "(nat \<times> nat \<times> 'a) list"

definition coeff :: "'a::{zero,plus} EigenSparseMatrix \<Rightarrow> nat \<Rightarrow> nat \<Rightarrow> 'a" where
  "coeff M r c =
     fold (\<lambda>(r', c', v) acc. if r' = r \<and> c' = c then acc + v else acc) (m_triplets M) 0"

record 'a Weighted_Compressed =
  wc_M :: "((int \<times> int) \<times> 'a) list"
  wc_shape :: "int \<times> int"

text \<open>
  \<open>to_eigen_M\<close>: every element of \<open>BvA.M\<close> is added to the accumulator, which
  converts its two native indices with \<open>add_dense\<close>; then the sparse extents of the
  two dimensions are set to the shape of \<open>BvA\<close>; then the matrix is built. The result
  is the matrix together with the two dimensions as the call leaves them.
\<close>

fun accumulate ::
  "((int \<times> int) \<times> 'a) list \<Rightarrow> SparseSet \<times> SparseSet \<Rightarrow> (nat \<times> nat \<times> 'a) list \<Rightarrow>
     (SparseSet \<times> SparseSet) \<times> (nat \<times> nat \<times> 'a) list" where
  "accumulate [] dims acc = (dims, acc)"
| "accumulate (((row, col), val) # rest) (dim0, dim1) acc =
     (case add_dense row dim0 of
        (r, dim0') \<Rightarrow>
          (case add_dense col dim1 of
             (c, dim1') \<Rightarrow> accumulate rest (dim0', dim1') (acc @ [(r, c, val)])))"

definition to_eigen_M ::
  "'a Weighted_Compressed \<Rightarrow> SparseSet \<times> SparseSet \<Rightarrow>
     'a EigenSparseMatrix \<times> (SparseSet \<times> SparseSet)" where
  "to_eigen_M BvA dims =
     (case accumulate (wc_M BvA) dims [] of
        ((dim0, dim1), triplets) \<Rightarrow>
          (let dim0' = set_sparse_extent (fst (wc_shape BvA)) dim0;
               dim1' = set_sparse_extent (snd (wc_shape BvA)) dim1
           in (\<lparr> m_rows = dense_extent dim0', m_cols = dense_extent dim1',
                  m_triplets = triplets \<rparr>, (dim0', dim1'))))"

section \<open>Auxiliary notions for the statements\<close>

text \<open>
  The key under which \<open>add_cell\<close> and \<open>add_vertex\<close> try to insert: the size of the
  collection for the unassigned sentinel, the entity's own index otherwise.
\<close>

definition cell_key :: "'a Cell \<Rightarrow> 'a Grid \<Rightarrow> int" where
  "cell_key cell g = (if c_index cell = -1 then int (length (g_cells g)) else c_index cell)"

definition vertex_key :: "'a Vertex \<Rightarrow> 'a Grid \<Rightarrow> int" where
  "vertex_key vertex g =
     (if v_index vertex = -1 then int (length (g_vertices g)) else v_index vertex)"

text \<open>
  The Surveyor's formula in the words of the specification: half the sum, over the
  vertices in order, of \<open>x\<^sub>i * y\<^sub>i\<^sub>+\<^sub>1 - x\<^sub>i\<^sub>+\<^sub>1 * y\<^sub>i\<close> with the indices taken modulo the
  number of vertices.
\<close>

definition edge_term :: "'a::{minus,times} Vertex \<Rightarrow> 'a Vertex \<Rightarrow> 'a" where
  "edge_term a b = v_x a * v_y b - v_x b * v_y a"

definition surveyor :: "'a::field Vertex list \<Rightarrow> 'a" where
  "surveyor vs =
     (1 / 2) * (\<Sum>i<length vs. edge_term (vs ! i) (vs ! ((i + 1) mod length vs)))"

text \<open>
  The cells that a predicate keeps, and the set of vertex indices that a collection of
  cells refers to.
\<close>

definition kept_cells :: "(int \<Rightarrow> bool) \<Rightarrow> 'a Grid \<Rightarrow> 'a Cell Dict" where
  "kept_cells P g = filter (\<lambda>(key, cell). P (c_index cell)) (g_cells g)"

definition good_vertices_of :: "'a Cell Dict \<Rightarrow> int set" where
  "good_vertices_of cells = (\<Union>(key, cell) \<in> set cells. v_index ` set (c_vertices cell))"

text \<open>
  Grids built in the intended way: from a fresh grid by \<open>add_vertex\<close>, by \<open>add_cell\<close>
  of a cell whose vertices are vertices of the grid, and by \<open>filter_cells\<close>.
\<close>

inductive built :: "'a Grid \<Rightarrow> bool" where
  built_new: "built (Grid_new t)"
| built_add_vertex: "built g \<Longrightarrow> built (snd (add_vertex vertex g))"
| built_add_cell:
    "built g \<Longrightarrow>
     list_all (\<lambda>vertex. get_vertex (v_index vertex) g = Some vertex) (c_vertices cell) \<Longrightarrow>
     built (snd (add_cell cell g))"
| built_filter: "built g \<Longrightarrow> built (filter_cells include_cell g)"









section \<open>Example grids\<close>

text \<open>
  The unit square of the specification's first end-to-end example, as a cell and as a
  grid built by four \<open>add_vertex\<close> calls and one \<open>add_cell\<close> call, all with the
  unassigned sentinel.
\<close>

definition square_cell :: "real Cell" where
  "square_cell = \<lparr> c_index = 0, c_i = 0, c_j = 0, c_k = 0, c_area = 1,
     c_vertices = [\<lparr>v_index = 0, v_x = 0, v_y = 0\<rparr>, \<lparr>v_index = 1, v_x = 1, v_y = 0\<rparr>,
                   \<lparr>v_index = 2, v_x = 1, v_y = 1\<rparr>, \<lparr>v_index = 3, v_x = 0, v_y = 1\<rparr>] \<rparr>"

definition square_grid :: "real Grid" where
  "square_grid =
     snd (add_cell (square_cell\<lparr>c_index := -1\<rparr>)
       (snd (add_vertex \<lparr>v_index = -1, v_x = 0, v_y = 1\<rparr>
       (snd (add_vertex \<lparr>v_index = -1, v_x = 1, v_y = 1\<rparr>
       (snd (add_vertex \<lparr>v_index = -1, v_x = 1, v_y = 0\<rparr>
       (snd (add_vertex \<lparr>v_index = -1, v_x = 0, v_y = 0\<rparr> (Grid_new Type_XY))))))))))"

definition scale_proj :: "real \<Rightarrow> real \<Rightarrow> real \<times> real" where
  "scale_proj x y = (2 * x, 3 * y)"

text \<open>
  The strip of two unit squares sharing an edge, of the specification's second
  end-to-end example. Vertex \<open>n\<close> lies at \<open>(n mod 3, n div 3)\<close>; cell \<open>n\<close> has the
  corners \<open>n\<close>, \<open>n + 1\<close>, \<open>n + 4\<close>, \<open>n + 3\<close>. The vertices and the cells are
  inserted with explicit indices, in descending order.
\<close>

definition strip_vertex :: "int \<Rightarrow> real Vertex" where
  "strip_vertex n = \<lparr>v_index = n, v_x = real_of_int (n mod 3), v_y = real_of_int (n div 3)\<rparr>"

definition strip_cell :: "int \<Rightarrow> real Cell" where
  "strip_cell n = \<lparr> c_index = n, c_i = n, c_j = 0, c_k = 0, c_area = 1,
      c_vertices = map strip_vertex [n, n + 1, n + 4, n + 3] \<rparr>"

definition strip_grid :: "real Grid" where
  "strip_grid =
     snd (add_cell (strip_cell 0)
       (snd (add_cell (strip_cell 1)
         (fold (\<lambda>n g. snd (add_vertex (strip_vertex n) g)) [5, 4, 3, 2, 1, 0]
            (Grid_new Type_XY)))))"



definition keep0 :: "int \<Rightarrow> bool" where
  "keep0 ix \<longleftrightarrow> ix = 0"

text \<open>
  A triangle with the corners \<open>(0,0)\<close>, \<open>(1,0)\<close>, \<open>(0,1)\<close>, whose vertices are
  inserted with the explicit indices 20, 10 and 30; the grid is then renumbered and
  filtered with a predicate that keeps every cell.
\<close>

definition corner_vertex :: "int \<Rightarrow> real Vertex" where
  "corner_vertex n =
     \<lparr>v_index = n, v_x = (if n = 10 then 1 else 0), v_y = (if n = 30 then 1 else 0)\<rparr>"

definition corner_cell :: "real Cell" where
  "corner_cell = \<lparr> c_index = -1, c_i = 0, c_j = 0, c_k = 0, c_area = 1 / 2,
      c_vertices = map corner_vertex [20, 10, 30] \<rparr>"

definition keep_all :: "int \<Rightarrow> bool" where
  "keep_all ix \<longleftrightarrow> True"

definition renumbered_grid :: "real Grid" where
  "renumbered_grid =
     filter_cells keep_all
       (sort_renumber_vertices
         (snd (add_cell corner_cell
           (fold (\<lambda>n g. snd (add_vertex (corner_vertex n) g)) [10, 20, 30]
              (Grid_new Type_XY)))))"

text \<open>
  Cells without vertices whose area is a value of \<open>real option\<close>, where \<open>None\<close>
  plays the part of NaN; a grid of four such cells, filtered to the even indices.
\<close>

definition empty_cell :: "int \<Rightarrow> real option Cell" where
  "empty_cell n = \<lparr> c_index = n, c_i = 0, c_j = 0, c_k = 0, c_area = Some 2, c_vertices = [] \<rparr>"

definition even_index :: "int \<Rightarrow> bool" where
  "even_index ix \<longleftrightarrow> ix mod 2 = 0"

definition areas_grid :: "real option Grid" where
  "areas_grid =
     filter_cells even_index
       (snd (add_cells_auto (map empty_cell [-1, -1, -1, -1]) (Grid_new Type_GENERIC)))"

text \<open>The triple stream of the specification's sparse operator example.\<close>

definition example_BvA :: "real Weighted_Compressed" where
  "example_BvA = \<lparr> wc_M = [((0, 0), 2), ((0, 0), 3), ((1, 2), 1)], wc_shape = (3, 4) \<rparr>"

section \<open>Properties of the geometry\<close>

text \<open>
  Over a field, \<open>area_of_polygon\<close> computes the Surveyor's formula, the closing edge
  from the last vertex to the first included.
\<close>

lemma area_loop_sum:
  fixes ret :: "'a::field"
  shows "area_loop v0 vs ret =
     (last (v0 # vs),
      ret + (\<Sum>i<length vs. edge_term ((v0 # vs) ! i) ((v0 # vs) ! Suc i)))"
proof (induction vs arbitrary: v0 ret)
  case Nil
  show ?case by simp
next
  case (Cons v1 rest)
  have "(\<Sum>i<Suc (length rest). edge_term ((v0 # v1 # rest) ! i) ((v0 # v1 # rest) ! Suc i)) =
        edge_term v0 v1 + (\<Sum>i<length rest. edge_term ((v1 # rest) ! i) ((v1 # rest) ! Suc i))"
    by (subst sum.lessThan_Suc_shift) simp
  then show ?case
    by (simp add: Cons.IH edge_term_def add.assoc)
qed
lemma area_of_polygon_surveyor:
  fixes cell :: "'a::field Cell"
  assumes "c_vertices cell \<noteq> []"
  shows "area_of_polygon cell = Inr (surveyor (c_vertices cell))"
proof -
  obtain v0 vs where c: "c_vertices cell = v0 # vs"
    using assms by (cases "c_vertices cell") auto
  let ?ws = "v0 # vs"
  let ?m = "length vs"
  have inner: "\<And>i. i < ?m \<Longrightarrow>
      edge_term (?ws ! i) (?ws ! ((i + 1) mod Suc ?m)) = edge_term (?ws ! i) (?ws ! Suc i)"
    by simp
  have lastw: "last ?ws = ?ws ! ?m" by (simp add: last_conv_nth)
  have "(\<Sum>i<Suc ?m. edge_term (?ws ! i) (?ws ! ((i + 1) mod Suc ?m))) =
        (\<Sum>i<?m. edge_term (?ws ! i) (?ws ! ((i + 1) mod Suc ?m))) +
        edge_term (?ws ! ?m) (?ws ! ((?m + 1) mod Suc ?m))"
    by (rule sum.lessThan_Suc)
  also have "(\<Sum>i<?m. edge_term (?ws ! i) (?ws ! ((i + 1) mod Suc ?m))) =
             (\<Sum>i<?m. edge_term (?ws ! i) (?ws ! Suc i))"
    by (rule sum.cong) (use inner in auto)
  also have "edge_term (?ws ! ?m) (?ws ! ((?m + 1) mod Suc ?m)) = edge_term (last ?ws) v0"
    by (simp add: lastw del: last.simps)
  finally have s: "(\<Sum>i<Suc ?m. edge_term (?ws ! i) (?ws ! ((i + 1) mod Suc ?m))) =
        (\<Sum>i<?m. edge_term (?ws ! i) (?ws ! Suc i)) + edge_term (last ?ws) v0" .
  show ?thesis
    unfolding area_of_polygon_def c surveyor_def
    by (simp only: list.case area_loop_sum prod.case length_Cons s)
       (simp add: edge_term_def)
qed
text \<open>
  Claim C6. The single square cell with the corners \<open>(0,0)\<close>, \<open>(1,0)\<close>, \<open>(1,1)\<close>,
  \<open>(0,1)\<close>, in that order, in a cell-centered (L0) grid: \<open>area_of_polygon\<close> returns
  the signed area 1, which is the value of the Surveyor's formula, and \<open>centroid\<close>
  returns \<open>(1/2, 1/2)\<close>. The numbers are reals.
\<close>

theorem square_cell_area_centroid:
  "g_parameterization square_grid = L0 \<and> map snd (g_cells square_grid) = [square_cell] \<and>
   area_of_polygon square_cell = Inr 1 \<and> surveyor (c_vertices square_cell) = 1 \<and>
   centroid 0 square_grid = Inr (1 / 2, 1 / 2)"
  by code_simp

text \<open>
  The loop of the projected variant, started at the transformed vertex \<open>w\<close>, computes
  what the loop of the planar variant computes on the transformed vertices, and calls
  the projection once for each vertex it walks over.
\<close>

lemma proj_loop_area_loop:
  "proj_loop proj vs (v_x w) (v_y w) ret calls =
     (case area_loop w (map (transform_vertex proj) vs) ret of
        (it, r) \<Rightarrow> (v_x it, v_y it, r, calls @ map (\<lambda>v. (v_x v, v_y v)) vs))"
proof (induction vs arbitrary: w ret calls)
  case Nil
  then show ?case by simp
next
  case (Cons v vs)
  obtain x1 y1 where p: "proj (v_x v) (v_y v) = (x1, y1)" by (cases "proj (v_x v) (v_y v)")
  have tv: "v_x (transform_vertex proj v) = x1" "v_y (transform_vertex proj v) = y1"
    by (simp_all add: transform_vertex_def p)
  show ?case
    using Cons.IH[of "transform_vertex proj v"] by (simp add: p tv)
qed
text \<open>
  Claim C7. For a cell with at least one vertex and any projection,
  \<open>area_of_proj_polygon\<close> returns what \<open>area_of_polygon\<close> returns on the cell whose
  vertices have all been transformed, and the projection is called exactly once for
  each vertex of the cell, in order. No law of arithmetic is used: the two functions
  perform the same operations in the same order.
\<close>

theorem area_of_proj_polygon_refines:
  assumes "c_vertices cell \<noteq> []"
  shows "\<exists>a. area_of_polygon (transform_cell proj cell) = Inr a \<and>
             area_of_proj_polygon cell proj = Inr a \<and>
             area_of_proj_polygon_calls cell proj =
               Inr (a, map (\<lambda>v. (v_x v, v_y v)) (c_vertices cell))"
proof -
  obtain v vs where c: "c_vertices cell = v # vs" using assms by (cases "c_vertices cell") auto
  obtain x00 y00 where p: "proj (v_x v) (v_y v) = (x00, y00)" by (cases "proj (v_x v) (v_y v)")
  have tv: "v_x (transform_vertex proj v) = x00" "v_y (transform_vertex proj v) = y00"
    by (simp_all add: transform_vertex_def p)
  obtain it r where al: "area_loop (transform_vertex proj v) (map (transform_vertex proj) vs) 0 = (it, r)"
    by (cases "area_loop (transform_vertex proj v) (map (transform_vertex proj) vs) 0")
  have pl: "proj_loop proj vs x00 y00 0 [(v_x v, v_y v)] =
      (v_x it, v_y it, r, (v_x v, v_y v) # map (\<lambda>v. (v_x v, v_y v)) vs)"
    using proj_loop_area_loop[of proj vs "transform_vertex proj v" 0 "[(v_x v, v_y v)]"]
    by (simp add: tv al)
  show ?thesis
    by (simp add: area_of_polygon_def area_of_proj_polygon_def area_of_proj_polygon_calls_def
        transform_cell_def c p pl al tv)
qed
theorem area_of_proj_polygon_refines_witness:
  "c_vertices square_cell \<noteq> [] \<and>
   (\<exists>a. area_of_polygon (transform_cell scale_proj square_cell) = Inr a \<and>
        area_of_proj_polygon square_cell scale_proj = Inr a \<and>
        area_of_proj_polygon_calls square_cell scale_proj =
          Inr (a, map (\<lambda>v. (v_x v, v_y v)) (c_vertices square_cell)))"
proof -
  have h: "c_vertices square_cell \<noteq> []" by (simp add: square_cell_def)
  show ?thesis using h area_of_proj_polygon_refines[OF h, of scale_proj] by blast
qed
section \<open>Properties of insertion\<close>

lemma map_of_None_iff: "map_of d k = None \<longleftrightarrow> k \<notin> fst ` set d"
  by (simp add: map_of_eq_None_iff)
lemma add_cell_present:
  assumes "c_index cell \<noteq> -1" "c_index cell \<in> fst ` set (g_cells g)"
  shows "add_cell cell g =
     (Inl DuplicateIndex,
      g\<lparr>g_max_realized_cell_index := max (g_max_realized_cell_index g) (c_index cell)\<rparr>)"
proof -
  obtain c' where "map_of (g_cells g) (c_index cell) = Some c'"
    using assms(2) by (cases "map_of (g_cells g) (c_index cell)") (auto simp: map_of_None_iff)
  then show ?thesis using assms(1) by (simp add: add_cell_def dict_insert_def)
qed
lemma add_vertex_present:
  assumes "v_index vertex \<noteq> -1" "v_index vertex \<in> fst ` set (g_vertices g)"
  shows "add_vertex vertex g =
     (Inl DuplicateIndex,
      g\<lparr>g_max_realized_vertex_index := max (g_max_realized_vertex_index g) (v_index vertex)\<rparr>)"
proof -
  obtain c' where "map_of (g_vertices g) (v_index vertex) = Some c'"
    using assms(2) by (cases "map_of (g_vertices g) (v_index vertex)") (auto simp: map_of_None_iff)
  then show ?thesis using assms(1) by (simp add: add_vertex_def dict_insert_def)
qed
lemma add_cell_cases:
  "add_cell cell g =
     (if cell_key cell g \<in> fst ` set (g_cells g)
      then (Inl DuplicateIndex,
            g\<lparr>g_max_realized_cell_index := max (g_max_realized_cell_index g) (cell_key cell g)\<rparr>)
      else (Inr (cell\<lparr>c_index := cell_key cell g\<rparr>),
            g\<lparr>g_max_realized_cell_index := max (g_max_realized_cell_index g) (cell_key cell g),
              g_cells := g_cells g @ [(cell_key cell g, cell\<lparr>c_index := cell_key cell g\<rparr>)]\<rparr>))"
  by (auto simp: add_cell_def add_vertex_def dict_insert_def cell_key_def vertex_key_def Let_def
        map_of_eq_None_iff split: option.splits dest: map_of_SomeD)
           (force dest: map_of_SomeD)+
lemma add_vertex_cases:
  "add_vertex vertex g =
     (if vertex_key vertex g \<in> fst ` set (g_vertices g)
      then (Inl DuplicateIndex,
            g\<lparr>g_max_realized_vertex_index :=
                 max (g_max_realized_vertex_index g) (vertex_key vertex g)\<rparr>)
      else (Inr (vertex\<lparr>v_index := vertex_key vertex g\<rparr>),
            g\<lparr>g_max_realized_vertex_index :=
                 max (g_max_realized_vertex_index g) (vertex_key vertex g),
              g_vertices := g_vertices g @
                 [(vertex_key vertex g, vertex\<lparr>v_index := vertex_key vertex g\<rparr>)]\<rparr>))"
  by (auto simp: add_cell_def add_vertex_def dict_insert_def cell_key_def vertex_key_def Let_def
        map_of_eq_None_iff split: option.splits dest: map_of_SomeD)
           (force dest: map_of_SomeD)+

section \<open>Properties of filtering\<close>

lemma Max_insert_max:
  fixes a b :: int
  shows "finite S \<Longrightarrow> Max (insert (max a b) S) = Max (insert a (insert b S))"
  by (cases "S = {}") (simp_all add: max.assoc)
lemma fold_insert_index:
  "fold (\<lambda>vertex. insert (v_index vertex)) vs S = S \<union> v_index ` set vs"
  by (induction vs arbitrary: S) auto
lemma filter_cells_loop_eq:
  "filter_cells_loop P cells mx good =
     (filter (\<lambda>(key, cell). P (c_index cell)) cells,
      Max (insert mx (c_index ` snd ` set (filter (\<lambda>(key, cell). P (c_index cell)) cells))),
      good \<union> (\<Union>(key, cell) \<in> set (filter (\<lambda>(key, cell). P (c_index cell)) cells).
                v_index ` set (c_vertices cell)))"
proof (induction cells arbitrary: mx good)
  case Nil
  show ?case by simp
next
  case (Cons kc rest)
  obtain key cell where kc: "kc = (key, cell)" by (cases kc)
  define kept where "kept = filter (\<lambda>(key, cell). P (c_index cell)) rest"
  define S where "S = c_index ` snd ` set kept"
  define G where "G = (\<Union>(key, cell) \<in> set kept. v_index ` set (c_vertices cell))"
  have fin: "finite S" by (simp add: S_def)
  have ih: "\<And>mx good. filter_cells_loop P rest mx good = (kept, Max (insert mx S), good \<union> G)"
    using Cons.IH by (simp add: kept_def S_def G_def)
  show ?case
  proof (cases "P (c_index cell)")
    case True
    have f: "filter (\<lambda>(key, cell). P (c_index cell)) (kc # rest) = (key, cell) # kept"
      using True by (simp add: kc kept_def)
    have s: "c_index ` snd ` set ((key, cell) # kept) = insert (c_index cell) S"
      by (simp add: S_def)
    have g: "(\<Union>(key, cell) \<in> set ((key, cell) # kept). v_index ` set (c_vertices cell)) =
               v_index ` set (c_vertices cell) \<union> G"
      by (simp add: G_def)
    have l: "filter_cells_loop P (kc # rest) mx good =
        ((key, cell) # kept, Max (insert (max mx (c_index cell)) S),
         (good \<union> v_index ` set (c_vertices cell)) \<union> G)"
      using True by (simp add: kc ih fold_insert_index)
    show ?thesis
      unfolding f s g l Max_insert_max[OF fin] by (simp add: Un_assoc)
  next
    case False
    have f: "filter (\<lambda>(key, cell). P (c_index cell)) (kc # rest) = kept"
      using False by (simp add: kc kept_def)
    have l: "filter_cells_loop P (kc # rest) mx good = (kept, Max (insert mx S), good \<union> G)"
      using False by (simp add: kc ih)
    show ?thesis unfolding f l by (simp add: S_def G_def)
  qed
qed
lemma filter_vertices_loop_eq:
  "filter_vertices_loop good vertices mx =
     (filter (\<lambda>(key, vertex). v_index vertex \<in> good) vertices,
      Max (insert mx (v_index ` snd ` set
             (filter (\<lambda>(key, vertex). v_index vertex \<in> good) vertices))))"
proof (induction vertices arbitrary: mx)
  case Nil
  show ?case by simp
next
  case (Cons kv rest)
  obtain key vertex where kv: "kv = (key, vertex)" by (cases kv)
  define kept where "kept = filter (\<lambda>(key, vertex). v_index vertex \<in> good) rest"
  define S where "S = v_index ` snd ` set kept"
  have fin: "finite S" by (simp add: S_def)
  have ih: "\<And>mx. filter_vertices_loop good rest mx = (kept, Max (insert mx S))"
    using Cons.IH by (simp add: kept_def S_def)
  show ?case
  proof (cases "v_index vertex \<in> good")
    case True
    have f: "filter (\<lambda>(key, vertex). v_index vertex \<in> good) (kv # rest) = (key, vertex) # kept"
      using True by (simp add: kv kept_def)
    have s: "v_index ` snd ` set ((key, vertex) # kept) = insert (v_index vertex) S"
      by (simp add: S_def)
    have l: "filter_vertices_loop good (kv # rest) mx =
        ((key, vertex) # kept, Max (insert (max mx (v_index vertex)) S))"
      using True by (simp add: kv ih)
    show ?thesis
      unfolding f s l Max_insert_max[OF fin] by simp
  next
    case False
    have f: "filter (\<lambda>(key, vertex). v_index vertex \<in> good) (kv # rest) = kept"
      using False by (simp add: kv kept_def)
    have l: "filter_vertices_loop good (kv # rest) mx = (kept, Max (insert mx S))"
      using False by (simp add: kv ih)
    show ?thesis unfolding f l by (simp add: S_def)
  qed
qed
lemma filter_cells_eq:
  "filter_cells P g =
     g\<lparr>g_ncells_full := Some (ncells_full g),
       g_nvertices_full := Some (nvertices_full g),
       g_cells := kept_cells P g,
       g_max_realized_cell_index := Max (insert (-1) (c_index ` snd ` set (kept_cells P g))),
       g_vertices := filter (\<lambda>(key, vertex). v_index vertex \<in> good_vertices_of (kept_cells P g))
                       (g_vertices g),
       g_max_realized_vertex_index :=
         Max (insert (-1) (v_index ` snd ` set
           (filter (\<lambda>(key, vertex). v_index vertex \<in> good_vertices_of (kept_cells P g))
              (g_vertices g))))\<rparr>"
proof -
  have nv: "nvertices_full (g\<lparr>g_ncells_full := Some (ncells_full g)\<rparr>) = nvertices_full g"
    by (simp add: nvertices_full_def nvertices_realized_def split: option.splits)
  show ?thesis
    unfolding filter_cells_def Let_def
    by (simp add: filter_cells_loop_eq filter_vertices_loop_eq nv kept_cells_def
        good_vertices_of_def)
qed
lemma dict_wf_key: "dict_wf ix d \<Longrightarrow> (k, v) \<in> set d \<Longrightarrow> k = ix v"
  by (auto simp: dict_wf_def list_all_iff)
lemma full_counts_filter:
  "ncells_full (filter_cells P g) = ncells_full g"
  "nvertices_full (filter_cells P g) = nvertices_full g"
  by (simp_all add: filter_cells_eq ncells_full_def nvertices_full_def)
lemma full_counts_fold_filter:
  "ncells_full (fold filter_cells Ps g) = ncells_full g \<and>
   nvertices_full (fold filter_cells Ps g) = nvertices_full g"
  by (induction Ps arbitrary: g) (simp_all add: full_counts_filter)
text \<open>
  Claim C5. \<open>ncells_full\<close> and \<open>nvertices_full\<close> read the same after
  \<open>filter_cells\<close> as before it, and the same again after any further sequence of
  \<open>filter_cells\<close> calls; a count that was not set is frozen by the first filter to the
  realized count of that moment.
\<close>

theorem filter_keeps_full_counts:
  "ncells_full (filter_cells P g) = ncells_full g \<and>
   nvertices_full (filter_cells P g) = nvertices_full g \<and>
   ncells_full (fold filter_cells Ps (filter_cells P g)) = ncells_full g \<and>
   nvertices_full (fold filter_cells Ps (filter_cells P g)) = nvertices_full g \<and>
   (g_ncells_full g = None \<longrightarrow>
      g_ncells_full (filter_cells P g) = Some (ncells_realized g)) \<and>
   (g_nvertices_full g = None \<longrightarrow>
      g_nvertices_full (filter_cells P g) = Some (nvertices_realized g))"
  by (simp add: full_counts_filter full_counts_fold_filter)
     (simp add: filter_cells_eq ncells_full_def nvertices_full_def)
theorem filter_keeps_full_counts_witness:
  "g_ncells_full strip_grid = None \<and> g_nvertices_full strip_grid = None \<and>
   ncells_full (filter_cells keep0 strip_grid) = ncells_full strip_grid \<and>
   nvertices_full (filter_cells keep0 strip_grid) = nvertices_full strip_grid \<and>
   ncells_full (fold filter_cells [keep0, (\<lambda>ix. False)] (filter_cells keep0 strip_grid)) =
     ncells_full strip_grid \<and>
   nvertices_full (fold filter_cells [keep0, (\<lambda>ix. False)] (filter_cells keep0 strip_grid)) =
     nvertices_full strip_grid \<and>
   g_ncells_full (filter_cells keep0 strip_grid) = Some (ncells_realized strip_grid) \<and>
   g_nvertices_full (filter_cells keep0 strip_grid) = Some (nvertices_realized strip_grid) \<and>
   ncells_full strip_grid = 2 \<and> nvertices_full strip_grid = 6"
proof -
  have h: "g_ncells_full strip_grid = None" "g_nvertices_full strip_grid = None" by code_simp+
  have n: "ncells_full strip_grid = 2" "nvertices_full strip_grid = 6" by code_simp+
  show ?thesis
    using h n filter_keeps_full_counts[of keep0 strip_grid "[keep0, (\<lambda>ix. False)]"] by blast
qed
section \<open>The maximum-index invariant\<close>

lemma max_index_inv_new: "max_index_inv (Grid_new t)"
  by (simp add: max_index_inv_def Grid_new_def)
lemma max_index_inv_add_cell: "max_index_inv g \<Longrightarrow> max_index_inv (snd (add_cell cell g))"
  by (auto simp: max_index_inv_def add_cell_cases list_all_iff)
lemma max_index_inv_add_vertex: "max_index_inv g \<Longrightarrow> max_index_inv (snd (add_vertex vertex g))"
  by (auto simp: max_index_inv_def add_vertex_cases list_all_iff)
lemma max_index_inv_filter: "max_index_inv (filter_cells P g)"
proof -
  have "\<And>S (x::int). finite S \<Longrightarrow> x \<in> S \<Longrightarrow> x \<le> Max (insert (-1) S)"
    by (simp add: Max_ge)
  then show ?thesis
    unfolding filter_cells_eq max_index_inv_def list_all_iff
    by (simp add: case_prod_beta)
qed
lemma dict_wf_snoc:
  "dict_wf ix d \<Longrightarrow> k \<notin> fst ` set d \<Longrightarrow> ix v = k \<Longrightarrow> dict_wf ix (d @ [(k, v)])"
  by (simp add: dict_wf_def)
lemma dict_wf_filter: "dict_wf ix d \<Longrightarrow> dict_wf ix (filter P d)"
  by (auto simp: dict_wf_def list_all_iff distinct_map_filter)
text \<open>Every reachable grid stores its entities under their own, distinct indices.\<close>

lemma reachable_dict_wf:
  "reachable g \<Longrightarrow> dict_wf c_index (g_cells g) \<and> dict_wf v_index (g_vertices g)"
proof (induction rule: reachable.induct)
  case (reach_new t)
  show ?case by (simp add: Grid_new_def dict_wf_def)
next
  case (reach_add_vertex g vertex)
  then show ?case by (simp add: add_vertex_cases dict_wf_snoc)
next
  case (reach_add_cell g cell)
  then show ?case by (simp add: add_cell_cases dict_wf_snoc)
next
  case (reach_filter g include_cell)
  then show ?case by (simp add: filter_cells_eq kept_cells_def dict_wf_filter)
qed
text \<open>
  Claim C9. In every grid reachable from a freshly constructed one by \<open>add_vertex\<close>,
  \<open>add_cell\<close> and \<open>filter_cells\<close>, the cell tracker is at least the index of every
  realized cell and the vertex tracker is at least the index of every realized vertex.
  \<open>filter_cells\<close> recomputes each tracker as the maximum of \<open>-1\<close> and the indices of
  the entities it keeps, so as \<open>-1\<close> when it keeps none. \<open>add_cell\<close> and
  \<open>add_vertex\<close> raise the tracker of their collection to the maximum of its old
  value and the index they insert under, and leave the other tracker alone.
\<close>

theorem max_realized_index_invariant:
  "(reachable g \<longrightarrow>
      (\<forall>(key, cell) \<in> set (g_cells g). c_index cell \<le> g_max_realized_cell_index g) \<and>
      (\<forall>(key, vertex) \<in> set (g_vertices g). v_index vertex \<le> g_max_realized_vertex_index g)) \<and>
   g_max_realized_cell_index (filter_cells P g) =
     Max (insert (-1) (c_index ` snd ` set (g_cells (filter_cells P g)))) \<and>
   g_max_realized_vertex_index (filter_cells P g) =
     Max (insert (-1) (v_index ` snd ` set (g_vertices (filter_cells P g)))) \<and>
   g_max_realized_cell_index (snd (add_cell cell g)) =
     max (g_max_realized_cell_index g) (cell_key cell g) \<and>
   g_max_realized_vertex_index (snd (add_cell cell g)) = g_max_realized_vertex_index g \<and>
   g_max_realized_vertex_index (snd (add_vertex vertex g)) =
     max (g_max_realized_vertex_index g) (vertex_key vertex g) \<and>
   g_max_realized_cell_index (snd (add_vertex vertex g)) = g_max_realized_cell_index g"
proof -
  have inv: "reachable g \<longrightarrow>
      (\<forall>(key, cell) \<in> set (g_cells g). c_index cell \<le> g_max_realized_cell_index g) \<and>
      (\<forall>(key, vertex) \<in> set (g_vertices g). v_index vertex \<le> g_max_realized_vertex_index g)"
  proof
    assume "reachable g"
    then have "max_index_inv g"
      by (induction rule: reachable.induct)
         (simp_all add: max_index_inv_new max_index_inv_add_cell max_index_inv_add_vertex
            max_index_inv_filter)
    then show "(\<forall>(key, cell) \<in> set (g_cells g). c_index cell \<le> g_max_realized_cell_index g) \<and>
      (\<forall>(key, vertex) \<in> set (g_vertices g). v_index vertex \<le> g_max_realized_vertex_index g)"
      by (simp add: max_index_inv_def list_all_iff)
  qed
  have f1: "g_max_realized_cell_index (filter_cells P g) =
     Max (insert (-1) (c_index ` snd ` set (g_cells (filter_cells P g))))"
    by (simp add: filter_cells_eq)
  have f2: "g_max_realized_vertex_index (filter_cells P g) =
     Max (insert (-1) (v_index ` snd ` set (g_vertices (filter_cells P g))))"
    by (simp add: filter_cells_eq)
  have a1: "g_max_realized_cell_index (snd (add_cell cell g)) =
     max (g_max_realized_cell_index g) (cell_key cell g)"
    "g_max_realized_vertex_index (snd (add_cell cell g)) = g_max_realized_vertex_index g"
    by (simp_all add: add_cell_cases)
  have a2: "g_max_realized_vertex_index (snd (add_vertex vertex g)) =
     max (g_max_realized_vertex_index g) (vertex_key vertex g)"
    "g_max_realized_cell_index (snd (add_vertex vertex g)) = g_max_realized_cell_index g"
    by (simp_all add: add_vertex_cases)
  from inv f1 f2 a1 a2 show ?thesis by blast
qed
theorem max_realized_index_invariant_witness:
  "reachable (filter_cells keep0 strip_grid) \<and>
   list_all (\<lambda>(key, cell).
        c_index cell \<le> g_max_realized_cell_index (filter_cells keep0 strip_grid))
     (g_cells (filter_cells keep0 strip_grid)) \<and>
   list_all (\<lambda>(key, vertex).
        v_index vertex \<le> g_max_realized_vertex_index (filter_cells keep0 strip_grid))
     (g_vertices (filter_cells keep0 strip_grid)) \<and>
   map fst (g_cells (filter_cells keep0 strip_grid)) = [0] \<and>
   map fst (g_vertices (filter_cells keep0 strip_grid)) = [4, 3, 1, 0] \<and>
   g_max_realized_cell_index strip_grid = 1 \<and>
   g_max_realized_vertex_index strip_grid = 5 \<and>
   g_max_realized_cell_index (filter_cells keep0 strip_grid) = 0 \<and>
   g_max_realized_vertex_index (filter_cells keep0 strip_grid) = 4 \<and>
   g_max_realized_cell_index (filter_cells (\<lambda>ix. False) strip_grid) = -1 \<and>
   g_max_realized_vertex_index (filter_cells (\<lambda>ix. False) strip_grid) = -1 \<and>
   g_max_realized_cell_index (snd (add_cell (strip_cell 7) strip_grid)) = 7 \<and>
   g_max_realized_vertex_index (snd (add_vertex (strip_vertex 2) strip_grid)) = 5"
proof -
  let ?G = "filter_cells keep0 strip_grid"
  let ?E = "filter_cells (\<lambda>ix. False) strip_grid"
  have "reachable strip_grid"
    unfolding strip_grid_def by (simp del: One_nat_def) (intro reachable.intros)
  then have h: "reachable ?G" by (rule reach_filter)
  have e: "map fst (g_cells ?G) = [0]" "map fst (g_vertices ?G) = [4, 3, 1, 0]"
    "g_max_realized_cell_index strip_grid = 1" "g_max_realized_vertex_index strip_grid = 5"
    by code_simp+
  note A = max_realized_index_invariant[where g = ?G and P = keep0
      and cell = "strip_cell 7" and vertex = "strip_vertex 2"]
  note B = max_realized_index_invariant[where g = strip_grid and P = keep0
      and cell = "strip_cell 7" and vertex = "strip_vertex 2"]
  note C = max_realized_index_invariant[where g = strip_grid and P = "\<lambda>ix. False"
      and cell = "strip_cell 7" and vertex = "strip_vertex 2"]
  have inv: "list_all (\<lambda>(key, cell). c_index cell \<le> g_max_realized_cell_index ?G) (g_cells ?G)"
    "list_all (\<lambda>(key, vertex). v_index vertex \<le> g_max_realized_vertex_index ?G) (g_vertices ?G)"
    using A h unfolding list_all_iff by blast+
  have m: "Max (insert (-1) (c_index ` snd ` set (g_cells ?G))) = 0"
    "Max (insert (-1) (v_index ` snd ` set (g_vertices ?G))) = 4"
    "Max (insert (-1) (c_index ` snd ` set (g_cells ?E))) = -1"
    "Max (insert (-1) (v_index ` snd ` set (g_vertices ?E))) = -1"
    "max (g_max_realized_cell_index strip_grid) (cell_key (strip_cell 7) strip_grid) = 7"
    "max (g_max_realized_vertex_index strip_grid) (vertex_key (strip_vertex 2) strip_grid) = 5"
    by code_simp+
  have t1: "g_max_realized_cell_index ?G = 0" "g_max_realized_vertex_index ?G = 4"
    "g_max_realized_cell_index (snd (add_cell (strip_cell 7) strip_grid)) = 7"
    "g_max_realized_vertex_index (snd (add_vertex (strip_vertex 2) strip_grid)) = 5"
    using B unfolding m by blast+
  have t2: "g_max_realized_cell_index ?E = -1" "g_max_realized_vertex_index ?E = -1"
    using C unfolding m by blast+
  from h inv e t1 t2 show ?thesis by blast
qed
text \<open>
  Claim C10, as the code has it. In a grid that satisfies the maximum-index invariant
  and stores every entity under its own index, \<open>add_cell\<close> and \<open>add_vertex\<close> with
  an explicit index that is already present raise \<open>DuplicateIndex\<close> and leave the grid
  as it was, trackers included.
\<close>

theorem failed_insertion_atomic:
  assumes "max_index_inv g" "dict_wf c_index (g_cells g)" "dict_wf v_index (g_vertices g)"
  shows "(c_index cell \<noteq> -1 \<and> c_index cell \<in> fst ` set (g_cells g) \<longrightarrow>
            add_cell cell g = (Inl DuplicateIndex, g)) \<and>
         (v_index vertex \<noteq> -1 \<and> v_index vertex \<in> fst ` set (g_vertices g) \<longrightarrow>
            add_vertex vertex g = (Inl DuplicateIndex, g))"
proof (intro conjI impI)
  assume a: "c_index cell \<noteq> -1 \<and> c_index cell \<in> fst ` set (g_cells g)"
  then obtain c' where in_d: "(c_index cell, c') \<in> set (g_cells g)" by auto
  have "c_index c' = c_index cell" using dict_wf_key[OF assms(2) in_d] by simp
  moreover have "c_index c' \<le> g_max_realized_cell_index g"
    using assms(1) in_d by (auto simp: max_index_inv_def list_all_iff)
  ultimately have "max (g_max_realized_cell_index g) (c_index cell) = g_max_realized_cell_index g"
    by simp
  then show "add_cell cell g = (Inl DuplicateIndex, g)"
    using a by (simp add: add_cell_present)
next
  assume a: "v_index vertex \<noteq> -1 \<and> v_index vertex \<in> fst ` set (g_vertices g)"
  then obtain v' where in_d: "(v_index vertex, v') \<in> set (g_vertices g)" by auto
  have "v_index v' = v_index vertex" using dict_wf_key[OF assms(3) in_d] by simp
  moreover have "v_index v' \<le> g_max_realized_vertex_index g"
    using assms(1) in_d by (auto simp: max_index_inv_def list_all_iff)
  ultimately have "max (g_max_realized_vertex_index g) (v_index vertex) = g_max_realized_vertex_index g"
    by simp
  then show "add_vertex vertex g = (Inl DuplicateIndex, g)"
    using a by (simp add: add_vertex_present)
qed
theorem failed_insertion_atomic_witness:
  "max_index_inv strip_grid \<and> dict_wf c_index (g_cells strip_grid) \<and>
   dict_wf v_index (g_vertices strip_grid) \<and>
   c_index (strip_cell 0) \<noteq> -1 \<and> c_index (strip_cell 0) \<in> fst ` set (g_cells strip_grid) \<and>
   v_index (strip_vertex 3) \<noteq> -1 \<and> v_index (strip_vertex 3) \<in> fst ` set (g_vertices strip_grid) \<and>
   add_cell (strip_cell 0) strip_grid = (Inl DuplicateIndex, strip_grid) \<and>
   add_vertex (strip_vertex 3) strip_grid = (Inl DuplicateIndex, strip_grid)"
proof -
  have h1: "max_index_inv strip_grid" by code_simp
  have h2: "dict_wf c_index (g_cells strip_grid)" by code_simp
  have h3: "dict_wf v_index (g_vertices strip_grid)" by code_simp
  have h4: "c_index (strip_cell 0) \<noteq> -1 \<and> c_index (strip_cell 0) \<in> fst ` set (g_cells strip_grid)"
    by code_simp
  have h5: "v_index (strip_vertex 3) \<noteq> -1 \<and> v_index (strip_vertex 3) \<in> fst ` set (g_vertices strip_grid)"
    by code_simp
  show ?thesis
    using h1 h2 h3 h4 h5
      failed_insertion_atomic[OF h1 h2 h3, of "strip_cell 0" "strip_vertex 3"]
    by blast
qed
text \<open>
  Claim C10 as stated fails. \<open>sort_renumber_vertices\<close> rewrites the indices of the
  vertices and leaves them under their old keys: the vertices inserted as 10, 20 and 30
  now carry the indices 2, 0 and 1, and the filter that follows lowers the vertex
  tracker to 2. The grid satisfies the maximum-index invariant. \<open>add_vertex\<close> with the
  explicit index 30, a key of the collection, raises \<open>DuplicateIndex\<close> and leaves the
  tracker at 30; \<open>add_vertex\<close> with the explicit index 1, the index of a realized
  vertex, does not raise at all.
\<close>

theorem failed_insertion_raises_tracker:
  "max_index_inv renumbered_grid \<and>
   map (\<lambda>(key, vertex). (key, v_index vertex)) (g_vertices renumbered_grid) =
     [(10, 2), (20, 0), (30, 1)] \<and>
   g_max_realized_vertex_index renumbered_grid = 2 \<and>
   v_index (corner_vertex 30) = 30 \<and>
   fst (add_vertex (corner_vertex 30) renumbered_grid) = Inl DuplicateIndex \<and>
   g_max_realized_vertex_index (snd (add_vertex (corner_vertex 30) renumbered_grid)) = 30 \<and>
   snd (add_vertex (corner_vertex 30) renumbered_grid) \<noteq> renumbered_grid \<and>
   v_index (corner_vertex 1) = 1 \<and>
   fst (add_vertex (corner_vertex 1) renumbered_grid) = Inr (corner_vertex 1)"
  by code_simp
section \<open>Properties of the native areas\<close>

lemma native_areas_loop_length:
  "native_areas_loop cells area = Inr r \<Longrightarrow> length r = length area"
  by (induction cells arbitrary: area) (auto split: if_splits)
lemma native_areas_loop_out_of_range:
  "\<exists>cell \<in> set cells. \<not> (0 \<le> c_index cell \<and> c_index cell < int (length area)) \<Longrightarrow>
   native_areas_loop cells area = Inl OutOfRange"
  by (induction cells arbitrary: area) auto
lemma native_areas_loop_ok:
  assumes "distinct (map c_index cells)"
    and "\<forall>cell \<in> set cells. 0 \<le> c_index cell \<and> c_index cell < int (length area)"
  shows "\<exists>r. native_areas_loop cells area = Inr r \<and> length r = length area \<and>
           (\<forall>cell \<in> set cells. r ! nat (c_index cell) = c_area cell) \<and>
           (\<forall>p < length area. int p \<notin> c_index ` set cells \<longrightarrow> r ! p = area ! p)"
  using assms
proof (induction cells arbitrary: area)
  case Nil
  show ?case by simp
next
  case (Cons cell rest)
  let ?area = "area[nat (c_index cell) := c_area cell]"
  have rng: "0 \<le> c_index cell" "c_index cell < int (length area)" using Cons.prems(2) by auto
  have d: "distinct (map c_index rest)" and nin: "c_index cell \<notin> c_index ` set rest"
    using Cons.prems(1) by auto
  have r2: "\<forall>c \<in> set rest. 0 \<le> c_index c \<and> c_index c < int (length ?area)"
    using Cons.prems(2) by simp
  obtain r where r: "native_areas_loop rest ?area = Inr r" "length r = length ?area"
    and rc: "\<forall>c \<in> set rest. r ! nat (c_index c) = c_area c"
    and ro: "\<forall>p < length ?area. int p \<notin> c_index ` set rest \<longrightarrow> r ! p = ?area ! p"
    using Cons.IH[OF d r2] by blast
  have here: "r ! nat (c_index cell) = c_area cell"
  proof -
    have "nat (c_index cell) < length ?area" using rng by simp
    moreover have "int (nat (c_index cell)) \<notin> c_index ` set rest" using nin rng by simp
    ultimately have "r ! nat (c_index cell) = ?area ! nat (c_index cell)" using ro by blast
    then show ?thesis using rng by simp
  qed
  have other: "\<forall>p < length area. int p \<notin> c_index ` set (cell # rest) \<longrightarrow> r ! p = area ! p"
  proof (intro allI impI)
    fix p assume p: "p < length area" "int p \<notin> c_index ` set (cell # rest)"
    then have "r ! p = ?area ! p" using ro by simp
    moreover have "p \<noteq> nat (c_index cell)" using p(2) rng by auto
    ultimately show "r ! p = area ! p" by simp
  qed
  show ?case using rng r rc here other by simp
qed
text \<open>
  Claim C8, as the code has it. In a grid that stores every cell under its own index:
  when \<open>ncells_full\<close> is not negative and the index of every realized cell lies in
  \<open>0 \<dots> ncells_full - 1\<close>, \<open>get_native_areas\<close> returns an array of length
  \<open>ncells_full\<close> that holds the stored area of each realized cell at the cell's index
  and NaN everywhere else; otherwise no array is returned: the allocation fails when
  \<open>ncells_full\<close> is negative, and else the bounds check of \<open>at\<close> fails.
\<close>

theorem get_native_areas_dense:
  assumes "dict_wf c_index (g_cells g)"
  shows "if 0 \<le> ncells_full g \<and>
            (\<forall>(key, cell) \<in> set (g_cells g). 0 \<le> c_index cell \<and> c_index cell < ncells_full g)
         then \<exists>r. get_native_areas nan g = Inr r \<and> int (length r) = ncells_full g \<and>
                (\<forall>(key, cell) \<in> set (g_cells g). r ! nat (c_index cell) = c_area cell) \<and>
                (\<forall>p < length r. int p \<notin> c_index ` snd ` set (g_cells g) \<longrightarrow> r ! p = nan)
         else get_native_areas nan g =
                Inl (if ncells_full g < 0 then AllocError else OutOfRange)"
proof (cases "0 \<le> ncells_full g \<and>
            (\<forall>(key, cell) \<in> set (g_cells g). 0 \<le> c_index cell \<and> c_index cell < ncells_full g)")
  case True
  let ?cells = "map snd (g_cells g)"
  let ?area = "replicate (nat (ncells_full g)) nan"
  have meq: "map c_index ?cells = map fst (g_cells g)"
    using assms by (auto simp: dict_wf_def list_all_iff)
  have d: "distinct (map c_index ?cells)" unfolding meq using assms by (simp add: dict_wf_def)
  have rng: "\<forall>cell \<in> set ?cells. 0 \<le> c_index cell \<and> c_index cell < int (length ?area)"
    using True by auto
  obtain r where r: "native_areas_loop ?cells ?area = Inr r" "length r = length ?area"
    and rc: "\<forall>c \<in> set ?cells. r ! nat (c_index c) = c_area c"
    and ro: "\<forall>p < length ?area. int p \<notin> c_index ` set ?cells \<longrightarrow> r ! p = ?area ! p"
    using native_areas_loop_ok[OF d rng] by blast
  have "get_native_areas nan g = Inr r" using True r by (simp add: get_native_areas_def)
  moreover have "int (length r) = ncells_full g" using r True by simp
  moreover have "\<forall>(key, cell) \<in> set (g_cells g). r ! nat (c_index cell) = c_area cell"
    using rc by auto
  moreover have "\<forall>p < length r. int p \<notin> c_index ` snd ` set (g_cells g) \<longrightarrow> r ! p = nan"
    using ro r(2) by (simp add: image_image)
  ultimately show ?thesis using True by simp
next
  case False
  have "get_native_areas nan g = Inl (if ncells_full g < 0 then AllocError else OutOfRange)"
  proof (cases "ncells_full g < 0")
    case True
    then show ?thesis by (simp add: get_native_areas_def)
  next
    case nonneg: False
    then obtain key cell where kc: "(key, cell) \<in> set (g_cells g)"
      and bad: "\<not> (0 \<le> c_index cell \<and> c_index cell < ncells_full g)"
      using False by auto
    have "\<exists>c \<in> set (map snd (g_cells g)).
            \<not> (0 \<le> c_index c \<and> c_index c < int (length (replicate (nat (ncells_full g)) nan)))"
      using kc bad nonneg by force
    from native_areas_loop_out_of_range[OF this] show ?thesis
      using nonneg by (simp add: get_native_areas_def)
  qed
  then show ?thesis using False by simp
qed
theorem get_native_areas_dense_witness:
  "dict_wf c_index (g_cells areas_grid) \<and> 0 \<le> ncells_full areas_grid \<and>
   list_all (\<lambda>(key, cell). 0 \<le> c_index cell \<and> c_index cell < ncells_full areas_grid)
     (g_cells areas_grid) \<and>
   (\<exists>r. get_native_areas None areas_grid = Inr r \<and> int (length r) = ncells_full areas_grid \<and>
        (\<forall>(key, cell) \<in> set (g_cells areas_grid). r ! nat (c_index cell) = c_area cell) \<and>
        (\<forall>p < length r. int p \<notin> c_index ` snd ` set (g_cells areas_grid) \<longrightarrow> r ! p = None)) \<and>
   map fst (g_cells areas_grid) = [0, 2] \<and> ncells_full areas_grid = 4"
proof -
  have h1: "dict_wf c_index (g_cells areas_grid)" by code_simp
  have h2: "0 \<le> ncells_full areas_grid \<and>
   (\<forall>(key, cell) \<in> set (g_cells areas_grid).
       0 \<le> c_index cell \<and> c_index cell < ncells_full areas_grid)" by code_simp
  have h3: "map fst (g_cells areas_grid) = [0, 2] \<and> ncells_full areas_grid = 4" by code_simp
  show ?thesis
    using h1 h2 h3 get_native_areas_dense[OF h1, of None, unfolded if_P[OF h2]]
    unfolding list_all_iff by blast
qed
text \<open>
  Claim C8 as stated fails: a fresh grid into which one cell with the explicit index 5
  has been inserted has one realized cell, so \<open>ncells_full\<close> is 1, and writing at
  position 5 of an array of length 1 is out of range. With the explicit index \<open>-2\<close>
  the write is out of range whatever the length of the array.
\<close>

theorem native_areas_out_of_range:
  "map (c_index \<circ> snd) (g_cells (snd (add_cell (empty_cell 5) (Grid_new Type_GENERIC)))) = [5] \<and>
   ncells_full (snd (add_cell (empty_cell 5) (Grid_new Type_GENERIC))) = 1 \<and>
   get_native_areas None (snd (add_cell (empty_cell 5) (Grid_new Type_GENERIC))) = Inl OutOfRange \<and>
   map (c_index \<circ> snd) (g_cells (snd (add_cell (empty_cell (-2)) (Grid_new Type_GENERIC)))) = [-2] \<and>
   get_native_areas None (snd (add_cell (empty_cell (-2)) (Grid_new Type_GENERIC))) = Inl OutOfRange"
  by code_simp

section \<open>Well-formedness is kept by the operations\<close>

lemma grid_wf_new: "grid_wf (Grid_new t)"
  by (simp add: grid_wf_def dict_wf_def refs_ok_def indices_assigned_def Grid_new_def)
lemma vertex_key_assigned: "vertex_key vertex g \<noteq> -1"
  by (simp add: vertex_key_def)
lemma cell_key_assigned: "cell_key cell g \<noteq> -1"
  by (simp add: cell_key_def)
lemma grid_wf_add_vertex:
  assumes "grid_wf g"
  shows "grid_wf (snd (add_vertex vertex g))"
proof (cases "vertex_key vertex g \<in> fst ` set (g_vertices g)")
  case True
  then show ?thesis
    using assms
    by (simp add: add_vertex_cases grid_wf_def refs_ok_def indices_assigned_def)
next
  case False
  let ?k = "vertex_key vertex g"
  let ?d = "g_vertices g @ [(?k, vertex\<lparr>v_index := ?k\<rparr>)]"
  have m: "\<And>i w. map_of (g_vertices g) i = Some w \<Longrightarrow> map_of ?d i = Some w"
    by (simp add: map_add_def)
  have "dict_wf v_index ?d"
    using assms False by (simp add: grid_wf_def dict_wf_def)
  moreover have "list_all (\<lambda>(key, cell).
        list_all (\<lambda>vertex. map_of ?d (v_index vertex) = Some vertex) (c_vertices cell)) (g_cells g)"
    using assms m unfolding grid_wf_def refs_ok_def list_all_iff by fast
  moreover have "list_all (\<lambda>(key, vertex). key \<noteq> -1) ?d"
    using assms vertex_key_assigned[of vertex g] by (simp add: grid_wf_def indices_assigned_def)
  ultimately show ?thesis
    using assms False
    by (simp add: add_vertex_cases grid_wf_def refs_ok_def indices_assigned_def)
qed
lemma grid_wf_add_cell:
  assumes "grid_wf g"
    and "list_all (\<lambda>vertex. get_vertex (v_index vertex) g = Some vertex) (c_vertices cell)"
  shows "grid_wf (snd (add_cell cell g))"
proof (cases "cell_key cell g \<in> fst ` set (g_cells g)")
  case True
  then show ?thesis
    using assms(1)
    by (simp add: add_cell_cases grid_wf_def refs_ok_def indices_assigned_def)
next
  case False
  let ?k = "cell_key cell g"
  let ?d = "g_cells g @ [(?k, cell\<lparr>c_index := ?k\<rparr>)]"
  have "dict_wf c_index ?d"
    using assms(1) False by (simp add: grid_wf_def dict_wf_def)
  moreover have "list_all (\<lambda>(key, cell).
        list_all (\<lambda>vertex. map_of (g_vertices g) (v_index vertex) = Some vertex)
          (c_vertices cell)) ?d"
    using assms by (simp add: grid_wf_def refs_ok_def get_vertex_def)
  moreover have "list_all (\<lambda>(key, cell). key \<noteq> -1) ?d"
    using assms(1) cell_key_assigned[of cell g] by (simp add: grid_wf_def indices_assigned_def)
  ultimately show ?thesis
    using assms(1) False
    by (simp add: add_cell_cases grid_wf_def refs_ok_def indices_assigned_def)
qed
lemma grid_wf_filter:
  assumes "grid_wf g"
  shows "grid_wf (filter_cells P g)"
proof -
  let ?K = "kept_cells P g"
  let ?Q = "\<lambda>(key, vertex). v_index vertex \<in> good_vertices_of ?K"
  let ?V = "filter ?Q (g_vertices g)"
  have wfv: "dict_wf v_index (g_vertices g)" and wfc: "dict_wf c_index (g_cells g)"
    and ro: "refs_ok g" and ia: "indices_assigned g"
    using assms by (simp_all add: grid_wf_def)
  have 1: "dict_wf v_index ?V" using wfv by (rule dict_wf_filter)
  have 2: "dict_wf c_index ?K" unfolding kept_cells_def using wfc by (rule dict_wf_filter)
  have 3: "list_all (\<lambda>(key, cell).
        list_all (\<lambda>vertex. map_of ?V (v_index vertex) = Some vertex) (c_vertices cell)) ?K"
    unfolding list_all_iff
  proof (intro ballI, clarify)
    fix key cell w
    assume kc: "(key, cell) \<in> set ?K" and w: "w \<in> set (c_vertices cell)"
    have "(key, cell) \<in> set (g_cells g)" using kc by (simp add: kept_cells_def)
    then have a: "map_of (g_vertices g) (v_index w) = Some w"
      using ro w by (auto simp: refs_ok_def list_all_iff)
    have b: "v_index w \<in> good_vertices_of ?K"
      using kc w by (auto simp: good_vertices_of_def)
    have "map_of (filter (\<lambda>(k, v). v_index v \<in> good_vertices_of ?K) (g_vertices g)) (v_index w) = Some w"
      using a b by (rule map_of_filter_in)
    then show "map_of ?V (v_index w) = Some w" by simp
  qed
  have 4: "list_all (\<lambda>(key, vertex). key \<noteq> -1) ?V" "list_all (\<lambda>(key, cell). key \<noteq> -1) ?K"
    using ia by (auto simp: indices_assigned_def list_all_iff kept_cells_def)
  show ?thesis
    unfolding filter_cells_eq grid_wf_def refs_ok_def indices_assigned_def
    using 1 2 3 4 by simp
qed
text \<open>Every grid built in the intended way is well-formed.\<close>

lemma built_grid_wf: "built g \<Longrightarrow> grid_wf g"
  by (induction rule: built.induct)
     (simp_all add: grid_wf_new grid_wf_add_vertex grid_wf_add_cell grid_wf_filter)
section \<open>Properties of the mesh codec\<close>

subsection \<open>Writing\<close>

subsection \<open>Reading\<close>


subsection \<open>Round trip\<close>

section \<open>The sparse operator example\<close>

text \<open>
  Claim C4. For the triples \<open>(0,0,2)\<close>, \<open>(0,0,3)\<close>, \<open>(1,2,1)\<close> with the declared
  native extents \<open>(3,4)\<close> and two empty sparse sets: the matrix has the shape
  \<open>(2,2)\<close>; native rows 0 and 1 get the dense rows 0 and 1, native columns 0 and 2 the
  dense columns 0 and 1; the entry of native \<open>(0,0)\<close> is 5 and that of native
  \<open>(1,2)\<close> is 1; the recorded native extents are 3 and 4, although native row 2 and
  native columns 1 and 3 were never seen.
\<close>

theorem sparse_operator_example:
  "(case to_eigen_M example_BvA (SparseSet_new, SparseSet_new) of
      (M, (dim0, dim1)) \<Rightarrow>
        m_rows M = 2 \<and> m_cols M = 2 \<and>
        d2s dim0 = [0, 1] \<and> d2s dim1 = [0, 2] \<and>
        to_dense dim0 0 = Some 0 \<and> to_dense dim0 1 = Some 1 \<and>
        to_dense dim1 0 = Some 0 \<and> to_dense dim1 2 = Some 1 \<and>
        coeff M 0 0 = 5 \<and> coeff M 1 1 = 1 \<and> coeff M 0 1 = 0 \<and> coeff M 1 0 = 0 \<and>
        sparse_extent dim0 = Some 3 \<and> sparse_extent dim1 = Some 4 \<and>
        to_dense dim0 2 = None \<and> to_dense dim1 1 = None \<and> to_dense dim1 3 = None)"
  by code_simp

end
